theory Spec2Isabelle
  imports Complex_Main "HOL-Library.Word"
begin

section \<open>Common values\<close>

text \<open>
  A Python \<open>str\<close> is a sequence of Unicode code points; it is modelled as the list of
  its code points, so that \<open>len\<close>, equality and the ASCII test of the standard library
  mean what they mean in Python. Messages that the source writes in Chinese appear below
  as their code points.

  Readings of the wall clock (\<open>time.time()\<close>) are parameters of the operations that
  take them. They are binary64 numbers (type \<open>float64\<close> below), and sums and differences
  of them are rounded as the machine rounds them.
\<close>

type_synonym pystr = "nat list"

datatype py_error = TypeError | ValueError

text \<open>\<open>base.py\<close>, class \<open>Result\<close>: \<open>Result.success(value)\<close> and \<open>Result.fail(error)\<close>.\<close>

datatype 'a Result = Success 'a | Fail pystr

definition isascii :: "pystr \<Rightarrow> bool" where
  "isascii s = list_all (\<lambda>c. c < 128) s"


section \<open>Binary64 numbers\<close>

text \<open>
  Python's \<open>float\<close> is IEEE 754 binary64: a finite value is \<open>m * 2^e\<close> with an
  integer \<open>m\<close> of at most 53 bits. The result of \<open>+\<close> and \<open>-\<close> is the exact
  result rounded to the nearest such value, a tie going to the even significand:
  \<open>fl\<close> is that rounding, \<open>binade x\<close> the exponent \<open>k\<close> with
  \<open>2^k \<le> |x| < 2^(k+1)\<close>, and \<open>rne\<close> rounding to the nearest integer, ties to
  even. The exponent is not bounded here: overflow to infinity (beyond \<open>2^1024\<close>) and
  the coarser grid below \<open>2^-1022\<close> are left out.
\<close>

definition is_float :: "real \<Rightarrow> bool" where
  "is_float x = (\<exists>m e :: int. \<bar>m\<bar> < 2 ^ 53 \<and> x = of_int m * 2 powi e)"

definition rne :: "real \<Rightarrow> int" where
  "rne y =
     (let f = \<lfloor>y\<rfloor>
      in if y - of_int f < 1 / 2 then f
         else if 1 / 2 < y - of_int f then f + 1
         else if even f then f else f + 1)"

definition binade :: "real \<Rightarrow> int" where
  "binade x = \<lfloor>log 2 \<bar>x\<bar>\<rfloor>"

definition fl :: "real \<Rightarrow> real" where
  "fl x =
     (if x = 0 then 0
      else of_int (rne (x / 2 powi (binade x - 52))) * 2 powi (binade x - 52))"

typedef float64 = "{x :: real. is_float x}"
  morphisms valof Abs_float64
  by (auto simp add: is_float_def intro!: exI [of _ 0])

text \<open>
  \<open>flt m e\<close> is the binary64 number \<open>m * 2^e\<close> (for \<open>m\<close> of at most 53 bits);
  \<open>fadd\<close> and \<open>fsub\<close> are \<open>+\<close> and \<open>-\<close> on \<open>float\<close>. An \<open>int\<close> operand
  of \<open>+\<close> is converted to \<open>float\<close> first, exactly when it has at most 53 bits.
\<close>

definition flt :: "int \<Rightarrow> int \<Rightarrow> float64" where
  "flt m e = Abs_float64 (if \<bar>m\<bar> < 2 ^ 53 then of_int m * 2 powi e else 0)"

definition fadd :: "float64 \<Rightarrow> float64 \<Rightarrow> float64" where
  "fadd a b = Abs_float64 (fl (valof a + valof b))"

definition fsub :: "float64 \<Rightarrow> float64 \<Rightarrow> float64" where
  "fsub a b = Abs_float64 (fl (valof a - valof b))"


section \<open>Token service (\<open>services/token.py\<close>)\<close>

record TokenInfo =
  token :: pystr
  expire_time :: float64
  used :: bool

text \<open>The dictionary \<open>_tokens\<close>: user id to token record.\<close>

type_synonym tokens = "int \<rightharpoonup> TokenInfo"

definition TOKEN_EXPIRE_SECONDS :: int where
  "TOKEN_EXPIRE_SECONDS = 300"

definition TOKEN_BYTES :: nat where
  "TOKEN_BYTES = 8"

text \<open>
  \<open>secrets.token_urlsafe(n)\<close> is the URL-safe base64 text of \<open>n\<close> bytes of the
  system's entropy source, with the padding removed. The bytes drawn are a parameter
  (\<open>rnd\<close>); the encoding is the standard one over the alphabet
  \<open>A-Z a-z 0-9 - _\<close>.
\<close>

definition b64_char :: "nat \<Rightarrow> nat" where
  "b64_char i =
     (if i < 26 then 65 + i
      else if i < 52 then 97 + (i - 26)
      else if i < 62 then 48 + (i - 52)
      else if i = 62 then 45
      else 95)"

fun token_urlsafe :: "8 word list \<Rightarrow> pystr" where
  "token_urlsafe [] = []"
| "token_urlsafe [a] =
     [b64_char (unat a div 4), b64_char ((unat a mod 4) * 16)]"
| "token_urlsafe [a, b] =
     [b64_char (unat a div 4),
      b64_char ((unat a mod 4) * 16 + unat b div 16),
      b64_char ((unat b mod 16) * 4)]"
| "token_urlsafe (a # b # c # rest) =
     [b64_char (unat a div 4),
      b64_char ((unat a mod 4) * 16 + unat b div 16),
      b64_char ((unat b mod 16) * 4 + unat c div 64),
      b64_char (unat c mod 64)] @ token_urlsafe rest"

text \<open>
  \<open>secrets.compare_digest(a, b)\<close> on two \<open>str\<close> arguments: the standard library
  accepts ASCII-only strings and raises \<open>TypeError\<close> ("comparing strings with non-ASCII
  characters is not supported") otherwise; on ASCII strings it answers whether they are
  equal.
\<close>

definition compare_digest :: "pystr \<Rightarrow> pystr \<Rightarrow> py_error + bool" where
  "compare_digest a b =
     (if isascii a \<and> isascii b then Inr (a = b) else Inl TypeError)"

text \<open>
  \<open>generate_token(user_id)\<close>: \<open>now\<close> is the clock reading and \<open>rnd\<close> the bytes
  that the entropy source yields, of which \<open>TOKEN_BYTES\<close> are drawn. Returns the
  updated dictionary and the token.
\<close>

definition generate_token :: "tokens \<Rightarrow> float64 \<Rightarrow> 8 word list \<Rightarrow> int \<Rightarrow> tokens \<times> pystr" where
  "generate_token toks now rnd uid =
     (let toks1 = (if uid \<in> dom toks then toks(uid := None) else toks);
          tok = token_urlsafe (take TOKEN_BYTES rnd);
          expire = fadd now (flt TOKEN_EXPIRE_SECONDS 0)
      in (toks1(uid \<mapsto> \<lparr>token = tok, expire_time = expire, used = False\<rparr>), tok))"

text \<open>
  \<open>verify_token(user_id, token)\<close>: returns the dictionary as the call leaves it and
  either the boolean returned or the exception raised. \<open>now\<close> is the clock reading
  taken before the expiry test.
\<close>

definition verify_token :: "tokens \<Rightarrow> float64 \<Rightarrow> int \<Rightarrow> pystr \<Rightarrow> tokens \<times> (py_error + bool)" where
  "verify_token toks now uid tok =
     (case toks uid of
        None \<Rightarrow> (toks, Inr False)
      | Some token_info \<Rightarrow>
          if used token_info then (toks(uid := None), Inr False)
          else if valof now > valof (expire_time token_info) then (toks(uid := None), Inr False)
          else (case compare_digest (token token_info) tok of
                  Inl e \<Rightarrow> (toks, Inl e)
                | Inr same \<Rightarrow>
                    if \<not> same then (toks, Inr False)
                    else (toks(uid := None), Inr True)))"

text \<open>\<open>has_valid_token(user_id)\<close>.\<close>

definition has_valid_token :: "tokens \<Rightarrow> float64 \<Rightarrow> int \<Rightarrow> bool" where
  "has_valid_token toks now uid =
     (case toks uid of
        None \<Rightarrow> False
      | Some token_info \<Rightarrow>
          if used token_info then False
          else if valof now > valof (expire_time token_info) then False
          else True)"



section \<open>Ban service (\<open>services/ban.py\<close>)\<close>

text \<open>
  The service object: the in-memory set \<open>_banned_users\<close> and the flag \<open>_initialized\<close>
  of \<open>ServiceBase\<close> (here \<open>ban_initialized\<close>).

  The file system is outside the program. Two parameters stand for it: \<open>loaded\<close> is
  the list that \<open>_load_banned_list()\<close> returns when it is called, and \<open>io\<close> is the
  outcome of the write in \<open>_save_banned_list\<close>: \<open>None\<close> when the write succeeds,
  \<open>Some e\<close> when it raises an exception whose text is \<open>e\<close>.
\<close>

record BanService =
  banned_users :: "int set"
  ban_initialized :: bool

definition BanService_init :: BanService where
  "BanService_init = \<lparr>banned_users = {}, ban_initialized = False\<rparr>"

definition ban_initialize :: "int list \<Rightarrow> BanService \<Rightarrow> BanService" where
  "ban_initialize loaded s =
     (if ban_initialized s then s
      else s\<lparr>banned_users := set loaded, ban_initialized := True\<rparr>)"

definition ban_ensure_initialized :: "int list \<Rightarrow> BanService \<Rightarrow> BanService" where
  "ban_ensure_initialized loaded s =
     (if \<not> ban_initialized s then ban_initialize loaded s else s)"

text \<open>The texts \<open>"\<dots>: "\<close> (prefix of the save error) and the default error of \<open>ban\<close>.\<close>

definition save_failed_prefix :: pystr where
  "save_failed_prefix = [20445, 23384, 22833, 36133, 58, 32]"

definition save_failed :: pystr where
  "save_failed = [20445, 23384, 22833, 36133]"

definition save_banned_list :: "pystr option \<Rightarrow> int set \<Rightarrow> unit Result" where
  "save_banned_list io users =
     (case io of
        None \<Rightarrow> Success ()
      | Some e \<Rightarrow> Fail (save_failed_prefix @ e))"

definition is_banned :: "int list \<Rightarrow> BanService \<Rightarrow> int \<Rightarrow> BanService \<times> bool" where
  "is_banned loaded s uid =
     (let s1 = ban_ensure_initialized loaded s
      in (s1, uid \<in> banned_users s1))"

text \<open>\<open>save_result.error or "\<dots>"\<close>: the error text, or the default when it is empty.\<close>

definition error_or :: "pystr \<Rightarrow> pystr \<Rightarrow> pystr" where
  "error_or e d = (if e = [] then d else e)"

definition ban :: "int list \<Rightarrow> pystr option \<Rightarrow> BanService \<Rightarrow> int \<Rightarrow> BanService \<times> bool Result" where
  "ban loaded io s uid =
     (let s1 = ban_ensure_initialized loaded s
      in if uid \<in> banned_users s1 then (s1, Success False)
         else
           (let s2 = s1\<lparr>banned_users := insert uid (banned_users s1)\<rparr>
            in case save_banned_list io (banned_users s2) of
                 Success _ \<Rightarrow> (s2, Success True)
               | Fail e \<Rightarrow> (s2, Fail (error_or e save_failed))))"

definition unban :: "int list \<Rightarrow> pystr option \<Rightarrow> BanService \<Rightarrow> int \<Rightarrow> BanService \<times> bool Result" where
  "unban loaded io s uid =
     (let s1 = ban_ensure_initialized loaded s
      in if uid \<notin> banned_users s1 then (s1, Success False)
         else
           (let s2 = s1\<lparr>banned_users := banned_users s1 - {uid}\<rparr>
            in case save_banned_list io (banned_users s2) of
                 Success _ \<Rightarrow> (s2, Success True)
               | Fail e \<Rightarrow> (s2, Fail (error_or e save_failed))))"


section \<open>Game service (\<open>services/game.py\<close>)\<close>

text \<open>
  \<open>GameState\<close> objects are shared: \<open>get_game\<close> hands the stored object to the caller
  and \<open>end_game\<close> writes to it. The service is therefore a store of objects by address
  and the dictionary \<open>_games\<close> from group id to address. A newly built object gets
  an address that no earlier object has (\<open>next_object\<close>). The fields that a game adds
  to \<open>GameState\<close> (and \<open>metadata\<close>) live in the extension of the record.
\<close>

record GameState =
  group_id :: int
  is_active :: bool

record 'g GameServiceBase =
  objects :: "nat \<Rightarrow> 'g GameState_scheme"
  games :: "int \<rightharpoonup> nat"
  next_object :: nat

text \<open>The service as \<open>__init__\<close> leaves it: no game stored; \<open>h\<close> is the store.\<close>

definition GameService_init :: "(nat \<Rightarrow> 'g GameState_scheme) \<Rightarrow> 'g GameServiceBase" where
  "GameService_init h = \<lparr>objects = h, games = Map.empty, next_object = 0\<rparr>"

definition has_active_game :: "'g GameServiceBase \<Rightarrow> int \<Rightarrow> bool" where
  "has_active_game s gid =
     (case games s gid of
        None \<Rightarrow> False
      | Some a \<Rightarrow> is_active (objects s a))"

definition get_game :: "'g GameServiceBase \<Rightarrow> int \<Rightarrow> nat option" where
  "get_game s gid = games s gid"

definition end_game :: "'g GameServiceBase \<Rightarrow> int \<Rightarrow> 'g GameServiceBase \<times> bool" where
  "end_game s gid =
     (case games s gid of
        None \<Rightarrow> (s, False)
      | Some a \<Rightarrow>
          (s\<lparr>objects := (objects s)(a := (objects s a)\<lparr>is_active := False\<rparr>),
             games := (games s)(gid := None)\<rparr>, True))"

text \<open>
  \<open>start_game\<close>: \<open>create\<close> is the subclass's \<open>create_game\<close> (the state it builds, or
  the text of the exception it raises).
\<close>

definition start_game_failed :: pystr where
  "start_game_failed = [24320, 22987, 28216, 25103, 22833, 36133, 58, 32]"

definition start_game ::
  "(int \<Rightarrow> pystr + 'g GameState_scheme) \<Rightarrow> 'g GameServiceBase \<Rightarrow> int
     \<Rightarrow> 'g GameServiceBase \<times> nat Result" where
  "start_game create s gid =
     (let s1 = (if gid \<in> dom (games s) then fst (end_game s gid) else s)
      in case create gid of
           Inl e \<Rightarrow> (s1, Fail (start_game_failed @ e))
         | Inr game \<Rightarrow>
             (let a = next_object s1
              in (s1\<lparr>objects := (objects s1)(a := game), games := (games s1)(gid \<mapsto> a),
                     next_object := Suc a\<rparr>,
                  Success a)))"

text \<open>
  The calls that reach a game service in this repository: \<open>start_game\<close> with the
  game's \<open>create_game\<close>, \<open>end_game\<close>, and a plugin writing the game's own fields of
  the object that \<open>get_game\<close> returned (\<open>shot_count\<close>, \<open>players\<close>,
  \<open>question_count\<close>, ...). Both \<open>create_game\<close> bodies build the state with the
  constructor's default \<open>is_active = True\<close>, which \<open>builds_active\<close> says of a call;
  \<open>is_active\<close> is written by \<open>end_game\<close> only.
\<close>

datatype 'g game_call =
    StartGame "int \<Rightarrow> pystr + 'g GameState_scheme" int
  | EndGame int
  | UpdateGame int "'g \<Rightarrow> 'g"

fun game_step :: "'g GameServiceBase \<Rightarrow> 'g game_call \<Rightarrow> 'g GameServiceBase" where
  "game_step s (StartGame create gid) = fst (start_game create s gid)"
| "game_step s (EndGame gid) = fst (end_game s gid)"
| "game_step s (UpdateGame gid f) =
     (case games s gid of
        None \<Rightarrow> s
      | Some a \<Rightarrow> s\<lparr>objects := (objects s)(a := GameState.more_update f (objects s a))\<rparr>)"

fun game_run :: "'g GameServiceBase \<Rightarrow> 'g game_call list \<Rightarrow> 'g GameServiceBase" where
  "game_run s [] = s"
| "game_run s (c # cs) = game_run (game_step s c) cs"

fun builds_active :: "'g game_call \<Rightarrow> bool" where
  "builds_active (StartGame create gid) =
     (case create gid of Inl e \<Rightarrow> True | Inr game \<Rightarrow> is_active game)"
| "builds_active (EndGame gid) = True"
| "builds_active (UpdateGame gid f) = True"

text \<open>
  The invariant of the calls above: every stored address is below \<open>next_object\<close> and
  holds an active state, and no two groups share an address.
\<close>

definition game_inv :: "'g GameServiceBase \<Rightarrow> bool" where
  "game_inv s =
     ((\<forall>g a. games s g = Some a \<longrightarrow> a < next_object s \<and> is_active (objects s a))
      \<and> (\<forall>g g' a. games s g = Some a \<longrightarrow> games s g' = Some a \<longrightarrow> g = g'))"

section \<open>Configuration (\<open>config.py\<close>)\<close>

text \<open>
  The settings the services read. \<open>PluginConfig\<close> declares \<open>random_reply_cooldown\<close>
  and \<open>max_history_per_group\<close> as integers with the constraint \<open>gt=0\<close>, checked when
  the settings are loaded; \<open>config_valid\<close> is that constraint.
\<close>

record PluginConfig =
  random_reply_cooldown :: int
  max_history_per_group :: int
  math_enabled :: bool
  random_enabled :: bool
  highnoon_enabled :: bool
  pjskpartiton_enabled :: bool
  math_soup_enabled :: bool


text \<open>The defaults that \<open>PluginConfig\<close> declares.\<close>

definition default_config :: PluginConfig where
  "default_config =
     \<lparr>random_reply_cooldown = 30, max_history_per_group = 50, math_enabled = True,
      random_enabled = True, highnoon_enabled = True, pjskpartiton_enabled = True,
      math_soup_enabled = True\<rparr>"


section \<open>Chat service (\<open>services/chat.py\<close>)\<close>

record ChatMessage =
  timestamp :: float64
  user_id :: int
  username :: pystr
  message :: pystr
  is_bot :: bool

text \<open>
  \<open>collections.deque(maxlen=m)\<close>: a bounded queue. The constructor raises
  \<open>ValueError\<close> on a negative bound; \<open>append\<close> on a full queue discards the item at
  the left end.
\<close>

record 'a deque =
  maxlen :: nat
  items :: "'a list"

definition deque_new :: "int \<Rightarrow> py_error + 'a deque" where
  "deque_new m = (if m < 0 then Inl ValueError else Inr \<lparr>maxlen = nat m, items = []\<rparr>)"

definition deque_append :: "'a deque \<Rightarrow> 'a \<Rightarrow> 'a deque" where
  "deque_append d x =
     (if length (items d) < maxlen d then d\<lparr>items := items d @ [x]\<rparr>
      else d\<lparr>items := tl (items d @ [x])\<rparr>)"

record ChatService =
  history :: "int \<rightharpoonup> ChatMessage deque"
  cooldown :: "int \<rightharpoonup> float64"
  chat_initialized :: bool

definition ChatService_init :: ChatService where
  "ChatService_init = \<lparr>history = Map.empty, cooldown = Map.empty, chat_initialized = False\<rparr>"

definition chat_initialize :: "ChatService \<Rightarrow> ChatService" where
  "chat_initialize s = (if chat_initialized s then s else s\<lparr>chat_initialized := True\<rparr>)"

definition chat_ensure_initialized :: "ChatService \<Rightarrow> ChatService" where
  "chat_ensure_initialized s = (if \<not> chat_initialized s then chat_initialize s else s)"

definition get_or_create_history ::
  "PluginConfig \<Rightarrow> ChatService \<Rightarrow> int \<Rightarrow> py_error + (ChatService \<times> ChatMessage deque)" where
  "get_or_create_history cfg s gid =
     (case history s gid of
        Some d \<Rightarrow> Inr (s, d)
      | None \<Rightarrow>
          (case deque_new (max_history_per_group cfg) of
             Inl e \<Rightarrow> Inl e
           | Inr d \<Rightarrow> Inr (s\<lparr>history := (history s)(gid \<mapsto> d)\<rparr>, d)))"

text \<open>
  \<open>_clean_cq_codes\<close>: \<open>re.sub(r'\[CQ:[^\]]+\]', '', message).strip()\<close>. Scanning from
  the left, a match is \<open>[CQ:\<close>, then one or more characters other than \<open>]\<close>, then
  \<open>]\<close>; each match is removed. \<open>strip\<close> removes the white space of Unicode at both
  ends.
\<close>

definition isspace :: "nat \<Rightarrow> bool" where
  "isspace c =
     (c \<in> set [9, 10, 11, 12, 13, 28, 29, 30, 31, 32, 133, 160, 5760,
               8192, 8193, 8194, 8195, 8196, 8197, 8198, 8199, 8200, 8201, 8202,
               8232, 8233, 8239, 8287, 12288])"

definition strip :: "pystr \<Rightarrow> pystr" where
  "strip s = rev (dropWhile isspace (rev (dropWhile isspace s)))"

function remove_cq :: "pystr \<Rightarrow> pystr" where
  "remove_cq [] = []"
| "remove_cq (c # cs) =
     (if c = 91 \<and> take 3 cs = [67, 81, 58]
         \<and> takeWhile (\<lambda>x. x \<noteq> 93) (drop 3 cs) \<noteq> []
         \<and> dropWhile (\<lambda>x. x \<noteq> 93) (drop 3 cs) \<noteq> []
      then remove_cq (tl (dropWhile (\<lambda>x. x \<noteq> 93) (drop 3 cs)))
      else c # remove_cq cs)"
  by pat_completeness auto
termination
proof (relation "measure length")
  show "wf (measure length)" by simp
next
  fix c :: nat and cs :: "nat list"
  have "length (tl (dropWhile (\<lambda>x. x \<noteq> 93) (drop 3 cs))) \<le> length cs"
    by (simp add: le_diff_conv trans_le_add1 length_dropWhile_le
        order_trans [OF length_dropWhile_le])
  then show "(tl (dropWhile (\<lambda>x. x \<noteq> 93) (drop 3 cs)), c # cs) \<in> measure length"
    by simp
next
  fix c :: nat and cs :: "nat list"
  show "(cs, c # cs) \<in> measure length" by simp
qed

definition clean_cq_codes :: "pystr \<Rightarrow> pystr" where
  "clean_cq_codes msg = strip (remove_cq msg)"

text \<open>
  \<open>record_message\<close>: \<open>now\<close> is the clock reading. Returns the service as the call
  leaves it and the exception raised, if any.
\<close>

definition record_message ::
  "PluginConfig \<Rightarrow> ChatService \<Rightarrow> float64 \<Rightarrow> int \<Rightarrow> int \<Rightarrow> pystr \<Rightarrow> pystr \<Rightarrow> bool
     \<Rightarrow> ChatService \<times> py_error option" where
  "record_message cfg s now gid uid name msg bot_flag =
     (let s1 = chat_ensure_initialized s
      in case get_or_create_history cfg s1 gid of
           Inl e \<Rightarrow> (s1, Some e)
         | Inr (s2, h) \<Rightarrow>
             (let clean_message = clean_cq_codes msg;
                  entry = \<lparr>timestamp = now, user_id = uid, username = name,
                           message = clean_message, is_bot = bot_flag\<rparr>
              in (s2\<lparr>history := (history s2)(gid \<mapsto> deque_append h entry)\<rparr>, None)))"

text \<open>
  Python's slice \<open>xs[i:]\<close>: a negative \<open>i\<close> counts from the end, and bounds outside
  the list are clipped.
\<close>

definition slice_from :: "'a list \<Rightarrow> int \<Rightarrow> 'a list" where
  "slice_from xs i =
     (if i < 0 then drop (nat (int (length xs) + i)) xs else drop (nat i) xs)"

definition get_messages ::
  "ChatService \<Rightarrow> int \<Rightarrow> int \<Rightarrow> bool \<Rightarrow> ChatService \<times> ChatMessage list" where
  "get_messages s gid limit include_bot =
     (let s1 = chat_ensure_initialized s
      in case history s1 gid of
           None \<Rightarrow> (s1, [])
         | Some d \<Rightarrow>
             (let messages = items d;
                  messages = (if \<not> include_bot then filter (\<lambda>m. \<not> is_bot m) messages
                              else messages)
              in (s1, if int (length messages) > limit then slice_from messages (- limit)
                      else messages)))"

text \<open>
  \<open>check_cooldown\<close>: the difference of the two readings is a \<open>float\<close>; its
  comparison with the configured \<open>int\<close> is exact.
\<close>

definition check_cooldown :: "PluginConfig \<Rightarrow> ChatService \<Rightarrow> float64 \<Rightarrow> int \<Rightarrow> ChatService \<times> bool" where
  "check_cooldown cfg s now gid =
     (let s1 = chat_ensure_initialized s
      in case cooldown s1 gid of
           None \<Rightarrow> (s1, True)
         | Some last_time \<Rightarrow>
             (let elapsed = fsub now last_time
              in (s1, valof elapsed \<ge> of_int (random_reply_cooldown cfg))))"

definition set_cooldown :: "ChatService \<Rightarrow> float64 \<Rightarrow> int \<Rightarrow> ChatService" where
  "set_cooldown s now gid =
     (let s1 = chat_ensure_initialized s
      in s1\<lparr>cooldown := (cooldown s1)(gid \<mapsto> now)\<rparr>)"

definition clear_history :: "ChatService \<Rightarrow> int option \<Rightarrow> ChatService" where
  "clear_history s g =
     (let s1 = chat_ensure_initialized s
      in case g of
           None \<Rightarrow> s1\<lparr>history := Map.empty\<rparr>
         | Some gid \<Rightarrow> s1\<lparr>history := (history s1)(gid := None)\<rparr>)"

definition clear_cooldown :: "ChatService \<Rightarrow> int option \<Rightarrow> ChatService" where
  "clear_cooldown s g =
     (let s1 = chat_ensure_initialized s
      in case g of
           None \<Rightarrow> s1\<lparr>cooldown := Map.empty\<rparr>
         | Some gid \<Rightarrow> s1\<lparr>cooldown := (cooldown s1)(gid := None)\<rparr>)"

text \<open>
  A history of the service: the calls made on it since it was constructed, each with
  the clock reading it took.
\<close>

datatype chat_call =
    RecordMessage float64 int int pystr pystr bool
  | GetMessages int int bool
  | CheckCooldown float64 int
  | SetCooldown float64 int
  | ClearHistory "int option"
  | ClearCooldown "int option"

fun chat_step :: "PluginConfig \<Rightarrow> ChatService \<Rightarrow> chat_call \<Rightarrow> ChatService" where
  "chat_step cfg s (RecordMessage now gid uid name msg bot_flag) =
     fst (record_message cfg s now gid uid name msg bot_flag)"
| "chat_step cfg s (GetMessages gid limit include_bot) = fst (get_messages s gid limit include_bot)"
| "chat_step cfg s (CheckCooldown now gid) = fst (check_cooldown cfg s now gid)"
| "chat_step cfg s (SetCooldown now gid) = set_cooldown s now gid"
| "chat_step cfg s (ClearHistory g) = clear_history s g"
| "chat_step cfg s (ClearCooldown g) = clear_cooldown s g"

fun chat_run :: "PluginConfig \<Rightarrow> ChatService \<Rightarrow> chat_call list \<Rightarrow> ChatService" where
  "chat_run cfg s [] = s"
| "chat_run cfg s (c # cs) = chat_run cfg (chat_step cfg s c) cs"


section \<open>Plugin dispatch (\<open>plugin_base.py\<close>)\<close>

text \<open>
  The plugin object, as far as dispatch reads it: \<open>command\<close>, \<open>feature_name\<close>,
  \<open>use_on_message\<close>, and whether \<open>_matcher\<close> has been set (\<open>has_matcher\<close>). An
  event carries the sender's id (\<open>event.user_id\<close>, here \<open>sender_id\<close>).
\<close>

record PluginBase =
  command :: "pystr option"
  feature_name :: "pystr option"
  use_on_message :: bool
  has_matcher :: bool

record MessageEvent =
  sender_id :: int

text \<open>
  What a call of the wrapper does is recorded as a trace: setting and resetting the
  context variable, the calls of \<open>_check_permission\<close>, \<open>_check_feature\<close>,
  \<open>handle\<close>, \<open>handle_message\<close> and \<open>handle_error\<close>, and the messages handed
  to the matcher. A call ends by returning or by raising; the exceptions are the
  framework's \<open>FinishedException\<close> and any other exception, with its text.
\<close>

datatype effect =
    Context_set
  | Context_reset
  | Check_permission int
  | Check_feature
  | Handle pystr
  | Handle_message
  | Handle_error pystr
  | Matcher_finish pystr
  | Matcher_send pystr

datatype exn = FinishedException | OtherException pystr

text \<open>The fixed messages of the wrapper, and the prefix of the error reply.\<close>

definition banned_message :: pystr where
  "banned_message =
     [31528, 34507, 44, 20320, 30340, 36134, 21495, 34987, 25289, 40657, 20102, 33]"

definition feature_off_message :: pystr where
  "feature_off_message =
     [31528, 34507, 44, 36825, 20010, 21151, 33021, 34987, 20851, 25481, 20102, 33]"

definition handle_error_prefix :: pystr where
  "handle_error_prefix = [22788, 29702, 20986, 38169, 58, 32]"

text \<open>
  \<open>_register\<close>: with the framework present, a plugin with a non-empty \<open>command\<close>
  gets its matcher from \<open>on_command\<close> and the command wrapper is installed on it;
  otherwise a plugin with \<open>use_on_message\<close> gets the message wrapper.
\<close>

datatype registration = Command_handler | Message_handler | No_handler

definition register :: "bool \<Rightarrow> PluginBase \<Rightarrow> PluginBase \<times> registration" where
  "register nonebot_available p =
     (if \<not> nonebot_available then (p, No_handler)
      else if command p \<noteq> None \<and> command p \<noteq> Some []
        then (p\<lparr>has_matcher := True\<rparr>, Command_handler)
      else if use_on_message p
        then (p\<lparr>has_matcher := True\<rparr>, Message_handler)
      else (p, No_handler))"

text \<open>
  \<open>finish\<close>: without a matcher nothing happens; the framework's \<open>Matcher.finish\<close>
  sends the message and raises \<open>FinishedException\<close>.
\<close>

definition finish :: "PluginBase \<Rightarrow> pystr \<Rightarrow> effect list \<times> exn option" where
  "finish p msg =
     (if has_matcher p then ([Matcher_finish msg], Some FinishedException)
      else ([], None))"

definition handle_error :: "PluginBase \<Rightarrow> pystr \<Rightarrow> effect list \<times> exn option" where
  "handle_error p e = finish p (handle_error_prefix @ e)"

definition check_permission :: "int list \<Rightarrow> BanService \<Rightarrow> MessageEvent \<Rightarrow> BanService \<times> bool" where
  "check_permission loaded bs event =
     (let (bs1, banned) = is_banned loaded bs (sender_id event)
      in if banned then (bs1, False) else (bs1, True))"

text \<open>
  \<open>_check_feature\<close>: \<open>getattr(config, feature_name + "_enabled", True)\<close>. The
  attributes of that form are the five switches of \<open>PluginConfig\<close>.
\<close>

definition config_enabled :: "PluginConfig \<Rightarrow> pystr \<Rightarrow> bool" where
  "config_enabled cfg f =
     (if f = map of_char ''math'' then math_enabled cfg
      else if f = map of_char ''random'' then random_enabled cfg
      else if f = map of_char ''highnoon'' then highnoon_enabled cfg
      else if f = map of_char ''pjskpartiton'' then pjskpartiton_enabled cfg
      else if f = map of_char ''math_soup'' then math_soup_enabled cfg
      else True)"

definition check_feature :: "PluginConfig \<Rightarrow> PluginBase \<Rightarrow> bool" where
  "check_feature cfg p =
     (case feature_name p of
        None \<Rightarrow> True
      | Some f \<Rightarrow> if f = [] then True else config_enabled cfg f)"

text \<open>
  The command wrapper built by \<open>_create_handler\<close>. \<open>handle\<close> is the plugin's own
  method: what it does and how it ends. \<open>args\<close> is the plain text of the command's
  argument. The result is the ban service as the call leaves it, the trace, and the
  exception that leaves the wrapper, if any.
\<close>

definition handler ::
  "PluginBase \<Rightarrow> PluginConfig \<Rightarrow> (MessageEvent \<Rightarrow> pystr \<Rightarrow> effect list \<times> exn option)
     \<Rightarrow> int list \<Rightarrow> BanService \<Rightarrow> MessageEvent \<Rightarrow> pystr
     \<Rightarrow> BanService \<times> effect list \<times> exn option" where
  "handler plugin cfg handle loaded bs event args =
     (let (bs1, permitted) = check_permission loaded bs event;
          (body, out) =
            (if \<not> permitted then
               (let (fx, r) = finish plugin banned_message
                in ([Check_permission (sender_id event)] @ fx, r))
             else if \<not> check_feature cfg plugin then
               (let (fx, r) = finish plugin feature_off_message
                in ([Check_permission (sender_id event), Check_feature] @ fx, r))
             else
               (let content = strip args;
                    (hx, hr) = handle event content;
                    pre = [Check_permission (sender_id event), Check_feature, Handle content] @ hx
                in case hr of
                     None \<Rightarrow> (pre, None)
                   | Some FinishedException \<Rightarrow> (pre, Some FinishedException)
                   | Some (OtherException e) \<Rightarrow>
                       (let (fx, r) = handle_error plugin e
                        in (pre @ [Handle_error e] @ fx, r))))
      in (bs1, [Context_set] @ body @ [Context_reset], out))"

text \<open>
  The message wrapper built by \<open>_create_message_handler\<close>: feature switch first, then
  the ban list; errors of \<open>handle_message\<close> are dropped.
\<close>

definition message_handler ::
  "PluginBase \<Rightarrow> PluginConfig \<Rightarrow> (MessageEvent \<Rightarrow> effect list \<times> exn option)
     \<Rightarrow> int list \<Rightarrow> BanService \<Rightarrow> MessageEvent
     \<Rightarrow> BanService \<times> effect list \<times> exn option" where
  "message_handler plugin cfg handle_message loaded bs event =
     (if \<not> check_feature cfg plugin then
        (bs, [Context_set, Check_feature, Context_reset], None)
      else
        (let (bs1, permitted) = check_permission loaded bs event
         in if \<not> permitted then
              (bs1, [Context_set, Check_feature, Check_permission (sender_id event),
                     Context_reset], None)
            else
              (let (hx, hr) = handle_message event
               in (bs1, [Context_set, Check_feature, Check_permission (sender_id event),
                         Handle_message] @ hx @ [Context_reset], None))))"



section \<open>Properties of binary64 rounding\<close>

lemma rne_bounds: "\<lfloor>y\<rfloor> \<le> rne y \<and> rne y \<le> \<lceil>y\<rceil>"
  unfolding rne_def Let_def
  by (auto simp: ceiling_def) linarith+

lemma powr_powi: "(2::real) powr (of_int k) = 2 powi k"
  by (simp add: powr_real_of_int')

lemma powr_powi_Suc: "(2::real) powr (of_int k + 1) = 2 powi (k + 1)"
  using powr_powi [of "k + 1"] by simp

lemma powi_step: "(2::real) powi (k + 1) = 2 * 2 powi k"
  using power_int_add [of "2::real" k 1] by simp

lemma binade_bounds:
  assumes "x \<noteq> 0"
  shows "2 powi (binade x) \<le> \<bar>x\<bar>" and "\<bar>x\<bar> < 2 powi (binade x + 1)"
proof -
  have "0 < \<bar>x\<bar>" using assms by simp
  then have "2 powr (of_int (binade x)) \<le> \<bar>x\<bar> \<and> \<bar>x\<bar> < 2 powr (of_int (binade x) + 1)"
    using floor_log_eq_powr_iff [of "\<bar>x\<bar>" 2 "binade x"] by (simp add: binade_def)
  then show "2 powi (binade x) \<le> \<bar>x\<bar>" and "\<bar>x\<bar> < 2 powi (binade x + 1)"
    by (simp_all add: powr_powi powr_powi_Suc)
qed

lemma binade_eq:
  assumes "2 powi k \<le> \<bar>x\<bar>" and "\<bar>x\<bar> < 2 powi (k + 1)"
  shows "binade x = k"
proof -
  have "(0::real) < 2 powi k" by simp
  then have "0 < \<bar>x\<bar>" using assms(1) by linarith
  moreover have "2 powr (of_int k) \<le> \<bar>x\<bar> \<and> \<bar>x\<bar> < 2 powr (of_int k + 1)"
    using assms by (simp add: powr_powi powr_powi_Suc)
  ultimately show ?thesis
    using floor_log_eq_powr_iff [of "\<bar>x\<bar>" 2 k] by (simp add: binade_def)
qed

lemma scaled_bounds:
  assumes "x \<noteq> 0"
  shows "2 ^ 52 \<le> \<bar>x / 2 powi (binade x - 52)\<bar>"
    and "\<bar>x / 2 powi (binade x - 52)\<bar> < 2 ^ 53"
proof -
  let ?k = "binade x"
  have u: "(0::real) < 2 powi (?k - 52)" by simp
  have a: "(2::real) powi ?k = 2 ^ 52 * 2 powi (?k - 52)"
    by (simp add: power_int_diff)
  have b: "(2::real) powi (?k + 1) = 2 ^ 53 * 2 powi (?k - 52)"
    by (simp add: power_int_diff power_int_add)
  have "\<bar>x / 2 powi (?k - 52)\<bar> = \<bar>x\<bar> / 2 powi (?k - 52)"
    using u by (simp add: abs_divide)
  moreover have "2 ^ 52 \<le> \<bar>x\<bar> / 2 powi (?k - 52)"
    using binade_bounds(1) [OF assms] u a by (simp add: pos_le_divide_eq)
  moreover have "\<bar>x\<bar> / 2 powi (?k - 52) < 2 ^ 53"
    using binade_bounds(2) [OF assms] u b by (simp add: pos_divide_less_eq)
  ultimately show "2 ^ 52 \<le> \<bar>x / 2 powi (binade x - 52)\<bar>"
    and "\<bar>x / 2 powi (binade x - 52)\<bar> < 2 ^ 53" by simp_all
qed

lemma rne_abs_le:
  assumes "\<bar>y\<bar> < 2 ^ 53"
  shows "\<bar>rne y\<bar> \<le> 2 ^ 53"
proof -
  have "- (2 ^ 53) \<le> \<lfloor>y\<rfloor>" using assms by (simp add: le_floor_iff) 
  moreover have "\<lceil>y\<rceil> \<le> 2 ^ 53" using assms by (simp add: ceiling_le_iff)
  ultimately show ?thesis using rne_bounds [of y] by linarith
qed

lemma is_float_fl: "is_float (fl x)"
proof (cases "x = 0")
  case True
  then show ?thesis by (auto simp: fl_def is_float_def intro: exI [of _ 0])
next
  case False
  let ?e = "binade x - 52"
  let ?n = "rne (x / 2 powi ?e)"
  have n: "\<bar>?n\<bar> \<le> 2 ^ 53"
    by (rule rne_abs_le) (rule scaled_bounds(2) [OF False])
  have flx: "fl x = of_int ?n * 2 powi ?e" using False by (simp add: fl_def)
  show ?thesis
  proof (cases "\<bar>?n\<bar> < 2 ^ 53")
    case True
    then show ?thesis unfolding is_float_def flx by blast
  next
    case False
    then have "?n = 2 ^ 53 \<or> ?n = - (2 ^ 53)" using n by linarith
    moreover have "(2::real) powi (?e + 1) = 2 * 2 powi ?e"
      by (rule powi_step)
    ultimately have "(of_int ?n :: real) * 2 powi ?e = of_int (?n div 2) * 2 powi (?e + 1)
        \<and> \<bar>?n div 2\<bar> < 2 ^ 53"
      by auto
    then show ?thesis unfolding is_float_def flx by blast
  qed
qed


lemma float_scaled_int:
  assumes "is_float y" and "2 powi k \<le> \<bar>y\<bar>"
  shows "\<exists>z::int. y / 2 powi (k - 52) = of_int z"
proof -
  from assms(1) obtain m e :: int where m: "\<bar>m\<bar> < 2 ^ 53" and y: "y = of_int m * 2 powi e"
    unfolding is_float_def by blast
  have "\<bar>y\<bar> = \<bar>of_int m :: real\<bar> * 2 powi e"
    by (simp add: y abs_mult)
  moreover have "\<bar>of_int m :: real\<bar> < 2 ^ 53"
    using m by (metis of_int_abs of_int_less_numeral_power_cancel_iff)
  ultimately have "\<bar>y\<bar> < 2 ^ 53 * 2 powi e"
    by (simp add: mult_strict_right_mono)
  also have "(2::real) ^ 53 * 2 powi e = 2 powi (e + 53)"
    by (simp add: power_int_add)
  finally have "(2::real) powi k < 2 powi (e + 53)"
    using assms(2) by linarith
  then have "k < e + 53"
    by (smt (verit) power_int_increasing)
  then have d: "0 \<le> e - (k - 52)" by simp
  have "y / 2 powi (k - 52) = of_int m * 2 powi (e - (k - 52))"
    by (simp add: y power_int_diff)
  also have "\<dots> = of_int m * 2 ^ nat (e - (k - 52))"
    using d by (simp add: power_int_def)
  also have "\<dots> = of_int (m * 2 ^ nat (e - (k - 52)))"
    by simp
  finally show ?thesis by blast
qed

lemma fl_lower:
  assumes "is_float y" and "y \<le> x"
  shows "y \<le> fl x"
proof (cases "x = 0")
  case True
  then show ?thesis using assms(2) by (simp add: fl_def)
next
  case False
  let ?k = "binade x"
  let ?u = "(2::real) powi (?k - 52)"
  have u: "0 < ?u" by simp
  have flx: "fl x = of_int (rne (x / ?u)) * ?u" using False by (simp add: fl_def)
  have k52: "(2::real) powi ?k = 2 ^ 52 * ?u" by (simp add: power_int_diff)
  have le: "y / ?u \<le> x / ?u" using assms(2) u by (simp add: divide_right_mono)
  have key: "y / ?u \<le> of_int \<lfloor>x / ?u\<rfloor>"
  proof (cases "2 powi ?k \<le> \<bar>y\<bar>")
    case True
    then obtain z :: int where z: "y / ?u = of_int z"
      using float_scaled_int [OF assms(1)] by blast
    then have "z \<le> \<lfloor>x / ?u\<rfloor>" using le by (simp add: le_floor_iff)
    then show ?thesis using z by simp
  next
    case small: False
    have xpos: "0 < x"
    proof (rule ccontr)
      assume "\<not> 0 < x"
      then have "x < 0" using False by simp
      then have "\<bar>x\<bar> \<le> \<bar>y\<bar>" using assms(2) by simp
      then show False using small binade_bounds(1) [OF False] by linarith
    qed
    have "2 ^ 52 \<le> x / ?u"
      using scaled_bounds(1) [OF False] xpos u by simp
    then have "2 ^ 52 \<le> \<lfloor>x / ?u\<rfloor>" by (simp add: le_floor_iff)
    then have a: "(2::real) ^ 52 \<le> of_int \<lfloor>x / ?u\<rfloor>"
      by (metis of_int_le_iff of_int_numeral of_int_power)
    have "y < 2 ^ 52 * ?u" using small k52 by simp
    then have "y / ?u < 2 ^ 52" using u by (simp add: pos_divide_less_eq)
    then show ?thesis using a by linarith
  qed
  have "y = (y / ?u) * ?u" using u by simp
  also have "\<dots> \<le> of_int \<lfloor>x / ?u\<rfloor> * ?u"
    using key u by (simp add: mult_right_mono del: times_divide_eq_left)
  also have "\<dots> \<le> of_int (rne (x / ?u)) * ?u"
    using rne_bounds [of "x / ?u"] u by (simp add: mult_right_mono)
  finally show ?thesis by (simp add: flx)
qed


lemma fl_eval:
  assumes "2 powi k \<le> \<bar>x\<bar>" and "\<bar>x\<bar> < 2 powi (k + 1)"
  shows "fl x = of_int (rne (x / 2 powi (k - 52))) * 2 powi (k - 52)"
proof -
  have "(0::real) < 2 powi k" by simp
  then have "0 < \<bar>x\<bar>" using assms(1) by linarith
  then have "x \<noteq> 0" by simp
  then show ?thesis by (simp add: fl_def binade_eq [OF assms])
qed

lemma valof_is_float: "is_float (valof a)"
  using valof [of a] by simp

lemma valof_flt: "\<bar>m\<bar> < 2 ^ 53 \<Longrightarrow> valof (flt m e) = of_int m * 2 powi e"
proof -
  assume m: "\<bar>m\<bar> < 2 ^ 53"
  then have "is_float (of_int m * 2 powi e)"
    unfolding is_float_def by blast
  then show ?thesis using m by (simp add: flt_def Abs_float64_inverse)
qed

lemma valof_fadd: "valof (fadd a b) = fl (valof a + valof b)"
  by (simp add: fadd_def Abs_float64_inverse is_float_fl)


lemma fadd_lower: "valof c \<le> valof a + valof b \<Longrightarrow> valof c \<le> valof (fadd a b)"
  by (simp add: valof_fadd fl_lower valof_is_float)

section \<open>Properties of the token service\<close>

lemma b64_char_ascii: "b64_char i < 128"
  unfolding b64_char_def by (simp split: if_splits) arith

lemma token_urlsafe_ascii: "isascii (token_urlsafe bs)"
  by (induction bs rule: token_urlsafe.induct) (simp_all add: isascii_def b64_char_ascii)

lemma compare_digest_same: "isascii a \<Longrightarrow> compare_digest a a = Inr True"
  by (simp add: compare_digest_def)

lemma generate_token_stored:
  "fst (generate_token toks now rnd uid) uid =
     Some \<lparr>token = token_urlsafe (take TOKEN_BYTES rnd),
           expire_time = fadd now (flt TOKEN_EXPIRE_SECONDS 0), used = False\<rparr>"
  by (simp add: generate_token_def Let_def)

lemma generate_token_returned:
  "snd (generate_token toks now rnd uid) = token_urlsafe (take TOKEN_BYTES rnd)"
  by (simp add: generate_token_def Let_def)

lemma verify_token_absent: "toks uid = None \<Longrightarrow> verify_token toks now uid tok = (toks, Inr False)"
  by (simp add: verify_token_def)

lemma verify_token_match:
  assumes "toks uid = Some info" and "\<not> used info"
    and "valof now \<le> valof (expire_time info)"
    and "token info = tok" and "isascii tok"
  shows "verify_token toks now uid tok = (toks(uid := None), Inr True)"
  using assms by (simp add: verify_token_def compare_digest_def)

lemma verify_token_expired:
  assumes "toks uid = Some info" and "\<not> used info"
    and "valof (expire_time info) < valof now"
  shows "verify_token toks now uid tok = (toks(uid := None), Inr False)"
  using assms by (simp add: verify_token_def)

lemma verify_token_mismatch_ascii:
  assumes "toks uid = Some info" and "\<not> used info"
    and "valof now \<le> valof (expire_time info)"
    and "token info \<noteq> tok'" and "isascii (token info)" and "isascii tok'"
  shows "verify_token toks now uid tok' = (toks, Inr False)"
  using assms by (simp add: verify_token_def compare_digest_def)

lemma valof_expire_seconds: "valof (flt TOKEN_EXPIRE_SECONDS 0) = 300"
  by (simp add: valof_flt TOKEN_EXPIRE_SECONDS_def)

lemma expire_after_1000:
  "valof (fadd (flt 1000 0) (flt TOKEN_EXPIRE_SECONDS 0)) = 1300"
proof -
  have "fl 1300 = 1300"
    by (subst fl_eval [of 10]) (simp_all add: rne_def Let_def)
  then show ?thesis
    by (simp add: valof_fadd valof_flt valof_expire_seconds)
qed

text \<open>
  C1. Token round trip: after \<open>generate_token(u)\<close> at the clock reading \<open>t0\<close>, a
  \<open>verify_token(u, t)\<close> with the returned token at a reading \<open>t1\<close> inside the validity
  window (\<open>t1 \<le> t0 + 300\<close>) returns true, and a second \<open>verify_token(u, t)\<close> with the
  same token, at any reading \<open>t2\<close>, returns false.
\<close>

theorem token_round_trip_once:
  assumes "valof t1 \<le> valof t0 + of_int TOKEN_EXPIRE_SECONDS"
  shows "(let (toks1, tok) = generate_token toks t0 rnd u;
              (toks2, r1) = verify_token toks1 t1 u tok;
              (toks3, r2) = verify_token toks2 t2 u tok
          in r1 = Inr True \<and> r2 = Inr False)"
proof -
  let ?g = "generate_token toks t0 rnd u"
  let ?tok = "token_urlsafe (take TOKEN_BYTES rnd)"
  have tok: "snd ?g = ?tok" by (rule generate_token_returned)
  have "valof t1 \<le> valof t0 + valof (flt TOKEN_EXPIRE_SECONDS 0)"
    using assms valof_expire_seconds by (simp add: TOKEN_EXPIRE_SECONDS_def)
  then have window: "valof t1 \<le> valof (fadd t0 (flt TOKEN_EXPIRE_SECONDS 0))"
    by (rule fadd_lower)
  have first: "verify_token (fst ?g) t1 u ?tok = ((fst ?g)(u := None), Inr True)"
    by (rule verify_token_match [OF generate_token_stored])
       (simp_all add: window token_urlsafe_ascii)
  have second: "verify_token ((fst ?g)(u := None)) t2 u ?tok = ((fst ?g)(u := None), Inr False)"
    by (rule verify_token_absent) simp
  show ?thesis
    using tok first second by (simp add: case_prod_beta)
qed

theorem token_round_trip_once_witness:
  "(let (toks1, tok) = generate_token Map.empty (flt 1000 0) [0, 1, 2, 3, 4, 5, 6, 7] 42;
        (toks2, r1) = verify_token toks1 (flt 1200 0) 42 tok;
        (toks3, r2) = verify_token toks2 (flt 1201 0) 42 tok
    in r1 = Inr True \<and> r2 = Inr False)"
proof -
  have h: "valof (flt 1200 0) \<le> valof (flt 1000 0) + of_int TOKEN_EXPIRE_SECONDS"
    by (simp add: valof_flt TOKEN_EXPIRE_SECONDS_def)
  show ?thesis
    using token_round_trip_once [OF h, of Map.empty "[0, 1, 2, 3, 4, 5, 6, 7]" 42 "flt 1201 0"]
    by simp
qed

text \<open>
  C2, as the claim states it: a \<open>verify_token\<close> at a clock reading after issue time
  plus 300 seconds returns false. The token is issued at \<open>t0 = 2^31 - 2^-22\<close>; the sum
  \<open>t0 + 300\<close> lies halfway between two binary64 numbers and is rounded up to
  \<open>2147483948\<close>, which becomes the stored \<open>expire_time\<close>. At the reading
  \<open>t1 = 2147483948\<close>, later than \<open>t0 + 300\<close>, the test
  \<open>current_time > expire_time\<close> fails and the token is accepted.
\<close>

theorem token_accepted_after_exact_window:
  "(let t0 = flt 9007199254740991 (- 22);
        t1 = flt 2147483948 0;
        (toks1, tok) = generate_token Map.empty t0 [0, 1, 2, 3, 4, 5, 6, 7] 42
    in valof t0 + 300 < valof t1
       \<and> snd (verify_token toks1 t1 42 tok) = Inr True)"
proof -
  let ?t0 = "flt 9007199254740991 (- 22)"
  let ?t1 = "flt 2147483948 0"
  let ?g = "generate_token Map.empty ?t0 [0, 1, 2, 3, 4, 5, 6, 7] 42"
  have v0: "valof ?t0 = 9007199254740991 * 2 powi (- 22)"
    by (simp add: valof_flt)
  have v1: "valof ?t1 = 2147483948"
    by (simp add: valof_flt)
  have r: "fl (9007199254740991 * 2 powi (- 22) + 300) = 2147483948"
    by (subst fl_eval [of 31]) (simp_all add: rne_def Let_def)
  have e: "valof (fadd ?t0 (flt TOKEN_EXPIRE_SECONDS 0)) = 2147483948"
    using r by (simp add: valof_fadd v0 valof_expire_seconds)
  have later: "valof ?t0 + 300 < valof ?t1"
    by (simp add: v0 v1)
  have "verify_token (fst ?g) ?t1 42 (snd ?g) = ((fst ?g)(42 := None), Inr True)"
    by (rule verify_token_match [OF generate_token_stored])
       (simp_all add: e v1 generate_token_returned token_urlsafe_ascii)
  then show ?thesis
    using later by (simp add: case_prod_beta Let_def)
qed

text \<open>
  C2, amended. The record stored by \<open>generate_token(u)\<close> at the reading \<open>t0\<close> expires
  at the binary64 sum of \<open>t0\<close> and 300, that is \<open>t0 + 300\<close> rounded to the nearest
  binary64 number; a \<open>verify_token(u, t)\<close> at a reading greater than this stored
  \<open>expire_time\<close> returns false although \<open>t\<close> is the stored token value.
\<close>

theorem token_expired_rejected:
  assumes "valof (fadd t0 (flt TOKEN_EXPIRE_SECONDS 0)) < valof t1"
  shows "(let (toks1, tok) = generate_token toks t0 rnd u
          in map_option expire_time (toks1 u) = Some (fadd t0 (flt TOKEN_EXPIRE_SECONDS 0))
             \<and> valof (fadd t0 (flt TOKEN_EXPIRE_SECONDS 0)) = fl (valof t0 + 300)
             \<and> map_option token (toks1 u) = Some tok
             \<and> snd (verify_token toks1 t1 u tok) = Inr False)"
proof -
  let ?g = "generate_token toks t0 rnd u"
  have "verify_token (fst ?g) t1 u (snd ?g) = ((fst ?g)(u := None), Inr False)"
    by (rule verify_token_expired [OF generate_token_stored])
       (simp_all add: assms)
  then show ?thesis
    by (simp add: case_prod_beta generate_token_stored generate_token_returned
        valof_fadd valof_expire_seconds)
qed

theorem token_expired_rejected_witness:
  "valof (fadd (flt 1000 0) (flt TOKEN_EXPIRE_SECONDS 0)) < valof (flt 1301 0)
   \<and> (let (toks1, tok) = generate_token Map.empty (flt 1000 0) [0, 1, 2, 3, 4, 5, 6, 7] 42
      in map_option expire_time (toks1 42) = Some (fadd (flt 1000 0) (flt TOKEN_EXPIRE_SECONDS 0))
         \<and> map_option token (toks1 42) = Some tok
         \<and> snd (verify_token toks1 (flt 1301 0) 42 tok) = Inr False)"
proof -
  have h: "valof (fadd (flt 1000 0) (flt TOKEN_EXPIRE_SECONDS 0)) < valof (flt 1301 0)"
    by (simp add: expire_after_1000 valof_flt)
  show ?thesis
    using h token_expired_rejected [OF h, of Map.empty "[0, 1, 2, 3, 4, 5, 6, 7]" 42]
    by (simp add: case_prod_beta)
qed

lemma verify_token_mismatch_keeps_token:
  assumes "toks uid = Some info" and "\<not> used info"
    and "valof now \<le> valof (expire_time info)"
    and "valof now' \<le> valof (expire_time info)"
    and "token info \<noteq> tok'" and "isascii (token info)" and "isascii tok'"
  shows "(let (toks1, r1) = verify_token toks now uid tok'
          in r1 = Inr False \<and> toks1 = toks
             \<and> snd (verify_token toks1 now' uid (token info)) = Inr True)"
  using assms
  by (simp add: verify_token_mismatch_ascii verify_token_match)

lemma verify_token_raises_on_non_ascii:
  assumes "toks uid = Some info" and "\<not> used info"
    and "valof now \<le> valof (expire_time info)"
    and "\<not> isascii tok'"
  shows "verify_token toks now uid tok' = (toks, Inl TypeError)"
  using assms by (simp add: verify_token_def compare_digest_def)

text \<open>
  C10. A value mismatch does not consume the token, and the call is to return false
  for every \<open>t'\<close> other than the stored token. For a \<open>t'\<close> with a character outside
  ASCII the call does not return: \<open>secrets.compare_digest\<close> raises \<open>TypeError\<close>.
  Here user 42 holds the unused, unexpired token issued from the bytes 0 to 7, and
  \<open>verify_token(42, t')\<close> is called with the one-character string of code point 233.
  The stored record is left as it was.
\<close>

theorem verify_token_non_ascii_raises:
  "(let (toks1, tok) = generate_token Map.empty (flt 1000 0) [0, 1, 2, 3, 4, 5, 6, 7] 42
    in tok \<noteq> [233]
       \<and> has_valid_token toks1 (flt 1001 0) 42
       \<and> verify_token toks1 (flt 1001 0) 42 [233] = (toks1, Inl TypeError))"
proof -
  have w: "\<not> valof (fadd (flt 1000 0) (flt TOKEN_EXPIRE_SECONDS 0)) < valof (flt 1001 0)"
    by (simp add: expire_after_1000 valof_flt)
  show ?thesis
    using w
    by (simp add: generate_token_def verify_token_def has_valid_token_def compare_digest_def
        isascii_def TOKEN_BYTES_def Let_def)
qed


section \<open>Properties of the ban service\<close>

lemma ensure_initialized_idem:
  "ban_ensure_initialized l1 (ban_ensure_initialized l0 s) = ban_ensure_initialized l0 s"
  by (simp add: ban_ensure_initialized_def ban_initialize_def)

lemma ban_state_initialized: "ban_initialized (fst (ban l io s x))"
  by (simp add: ban_def ban_ensure_initialized_def ban_initialize_def Let_def
      split: Result.splits)

lemma unban_state_initialized: "ban_initialized (fst (unban l io s x))"
  by (simp add: unban_def ban_ensure_initialized_def ban_initialize_def Let_def
      split: Result.splits)

lemma is_banned_initialized:
  "ban_initialized s \<Longrightarrow> is_banned l s x = (s, x \<in> banned_users s)"
  by (simp add: is_banned_def ban_ensure_initialized_def)

lemma ban_initialized_eq:
  "ban_initialized s \<Longrightarrow> ban l io s x = ban l' io s x"
  by (simp add: ban_def ban_ensure_initialized_def)

lemma ban_member: "x \<in> banned_users (fst (ban l io s x))"
  by (simp add: ban_def Let_def split: Result.splits)

lemma unban_not_member: "x \<notin> banned_users (fst (unban l io s x))"
  by (simp add: unban_def Let_def split: Result.splits)

lemma ban_result_ok:
  "snd (ban l None s x) = Success (\<not> snd (is_banned l s x))"
  by (simp add: ban_def is_banned_def save_banned_list_def Let_def)

lemma ban_again:
  assumes "ban_initialized s" and "x \<in> banned_users s"
  shows "ban l io s x = (s, Success False)"
  using assms by (simp add: ban_def ban_ensure_initialized_def)

text \<open>
  C3. With writes that succeed: after \<open>ban(x)\<close>, \<open>is_banned(x)\<close> is true; after
  \<open>unban(x)\<close>, \<open>is_banned(x)\<close> is false; the first \<open>ban(x)\<close> succeeds with the value
  "\<open>x\<close> was not banned before" (true when \<open>x\<close> is newly added), and a second \<open>ban(x)\<close>
  right after it succeeds with the value false and leaves the service, and so the
  banned set, unchanged.
\<close>

theorem ban_unban_roundtrip:
  "snd (is_banned l1 (fst (ban l0 None s x)) x) = True
   \<and> snd (is_banned l1 (fst (unban l0 None s x)) x) = False
   \<and> (let (s1, r1) = ban l0 None s x;
           (s2, r2) = ban l1 None s1 x
       in r1 = Success (\<not> snd (is_banned l0 s x))
          \<and> (\<not> snd (is_banned l0 s x) \<longrightarrow> r1 = Success True)
          \<and> r2 = Success False
          \<and> banned_users s2 = banned_users s1
          \<and> s2 = s1)"
proof -
  let ?b = "ban l0 None s x"
  have a: "snd (is_banned l1 (fst ?b) x) = True"
    by (simp add: is_banned_initialized [OF ban_state_initialized] ban_member)
  have b: "snd (is_banned l1 (fst (unban l0 None s x)) x) = False"
    by (simp add: is_banned_initialized [OF unban_state_initialized] unban_not_member)
  have r1: "snd ?b = Success (\<not> snd (is_banned l0 s x))"
    by (rule ban_result_ok)
  have second: "ban l1 None (fst ?b) x = (fst ?b, Success False)"
    by (rule ban_again [OF ban_state_initialized ban_member])
  show ?thesis
    using a b r1 second by (simp add: case_prod_beta)
qed

theorem ban_unban_roundtrip_witness:
  "\<not> snd (is_banned [1, 2] BanService_init 7)
   \<and> snd (is_banned [] (fst (ban [1, 2] None BanService_init 7)) 7) = True
   \<and> snd (is_banned [] (fst (unban [1, 2] None BanService_init 2)) 2) = False
   \<and> snd (ban [1, 2] None BanService_init 7) = Success True
   \<and> snd (ban [] None (fst (ban [1, 2] None BanService_init 7)) 7) = Success False"
proof -
  have h: "\<not> snd (is_banned [1, 2] BanService_init 7)"
    by (simp add: is_banned_def ban_ensure_initialized_def ban_initialize_def
        BanService_init_def)
  show ?thesis
    using h ban_unban_roundtrip [of "[]" "[1, 2]" BanService_init 7]
      ban_unban_roundtrip [of "[]" "[1, 2]" BanService_init 2]
    by (simp add: case_prod_beta Let_def)
qed

text \<open>
  C9. \<open>ban\<close> is not atomic on error: when \<open>x\<close> is not banned and the write fails with
  the text \<open>e\<close>, \<open>ban(x)\<close> returns the failure with the save error, and the set in
  memory has \<open>x\<close> all the same: \<open>is_banned(x)\<close> is then true.
\<close>

theorem ban_failure_still_bans:
  assumes "\<not> snd (is_banned l0 s x)"
  shows "(let (s1, r) = ban l0 (Some e) s x
          in r = Fail (save_failed_prefix @ e) \<and> snd (is_banned l1 s1 x) = True)"
proof -
  let ?b = "ban l0 (Some e) s x"
  have r: "snd ?b = Fail (save_failed_prefix @ e)"
    using assms
    by (simp add: ban_def is_banned_def save_banned_list_def error_or_def
        save_failed_prefix_def Let_def)
  have m: "snd (is_banned l1 (fst ?b) x) = True"
    by (simp add: is_banned_initialized [OF ban_state_initialized] ban_member)
  show ?thesis using r m by (simp add: case_prod_beta)
qed

theorem ban_failure_still_bans_witness:
  "\<not> snd (is_banned [1, 2] BanService_init 7)
   \<and> snd (ban [1, 2] (Some [100, 105, 115, 107]) BanService_init 7)
       = Fail (save_failed_prefix @ [100, 105, 115, 107])
   \<and> snd (is_banned [] (fst (ban [1, 2] (Some [100, 105, 115, 107]) BanService_init 7)) 7) = True"
proof -
  have h: "\<not> snd (is_banned [1, 2] BanService_init 7)"
    by (simp add: is_banned_def ban_ensure_initialized_def ban_initialize_def
        BanService_init_def)
  show ?thesis
    using h ban_failure_still_bans [OF h, of "[100, 105, 115, 107]" "[]"]
    by (simp add: case_prod_beta)
qed


section \<open>Properties of the game service\<close>

lemma end_game_absent: "games s g = None \<Longrightarrow> end_game s g = (s, False)"
  by (simp add: end_game_def)

lemma end_game_present:
  assumes "games s g = Some a"
  shows "snd (end_game s g) = True"
    and "games (fst (end_game s g)) g = None"
    and "\<not> is_active (objects (fst (end_game s g)) a)"
  using assms by (simp_all add: end_game_def)

lemma end_game_result: "snd (end_game s g) = (games s g \<noteq> None)"
  by (simp add: end_game_def split: option.splits)

lemma end_game_removes: "games (fst (end_game s g)) g = None"
  by (simp add: end_game_def split: option.splits)

lemma end_game_marks: "games s g = Some a \<Longrightarrow> \<not> is_active (objects (fst (end_game s g)) a)"
  by (simp add: end_game_def)

lemma end_game_not_active_after: "\<not> has_active_game (fst (end_game s g)) g"
  by (simp add: end_game_def has_active_game_def split: option.splits)

lemma game_inv_init: "game_inv (GameService_init h)"
  by (simp add: game_inv_def GameService_init_def)

lemma game_inv_end_game:
  assumes "game_inv s"
  shows "game_inv (fst (end_game s g))"
proof (cases "games s g")
  case None
  then show ?thesis using assms by (simp add: end_game_def)
next
  case (Some a)
  have other: "\<And>g' a'. g' \<noteq> g \<Longrightarrow> games s g' = Some a' \<Longrightarrow> a' \<noteq> a"
    using assms Some unfolding game_inv_def by blast
  show ?thesis
    using assms Some other
    unfolding game_inv_def
    by (auto simp add: end_game_def)
qed

lemma game_inv_start_game:
  assumes "game_inv s" and "builds_active (StartGame create g)"
  shows "game_inv (fst (start_game create s g))"
proof -
  let ?s1 = "if g \<in> dom (games s) then fst (end_game s g) else s"
  have inv1: "game_inv ?s1"
    using assms(1) by (simp add: game_inv_end_game)
  show ?thesis
  proof (cases "create g")
    case (Inl e)
    then show ?thesis using inv1 by (simp add: start_game_def Let_def)
  next
    case (Inr game)
    then have active: "is_active game" using assms(2) by simp
    have below: "\<And>g' a'. games ?s1 g' = Some a' \<Longrightarrow> a' < next_object ?s1"
      using inv1 unfolding game_inv_def by blast
    have act: "\<And>g' a'. games ?s1 g' = Some a' \<Longrightarrow> is_active (objects ?s1 a')"
      using inv1 unfolding game_inv_def by blast
    have inj: "\<And>g' g'' a'. games ?s1 g' = Some a' \<Longrightarrow> games ?s1 g'' = Some a' \<Longrightarrow> g' = g''"
      using inv1 unfolding game_inv_def by blast
    define s2 where "s2 =
        ?s1\<lparr>objects := (objects ?s1)(next_object ?s1 := game),
              games := (games ?s1)(g \<mapsto> next_object ?s1),
              next_object := Suc (next_object ?s1)\<rparr>"
    have st: "fst (start_game create s g) = s2"
      using Inr by (simp add: start_game_def Let_def s2_def)
    have games2: "games s2 = (games ?s1)(g \<mapsto> next_object ?s1)"
      and next2: "next_object s2 = Suc (next_object ?s1)"
      and objects2: "objects s2 = (objects ?s1)(next_object ?s1 := game)"
      by (simp_all add: s2_def)
    have fresh: "\<And>k. games ?s1 k \<noteq> Some (next_object ?s1)"
      using below by (metis less_irrefl)
    have p1: "\<forall>g' a'. games s2 g' = Some a'
        \<longrightarrow> a' < next_object s2 \<and> is_active (objects s2 a')"
    proof (intro allI impI)
      fix g' a'
      assume h: "games s2 g' = Some a'"
      show "a' < next_object s2 \<and> is_active (objects s2 a')"
      proof (cases "g' = g")
        case True
        then have "a' = next_object ?s1" using h by (simp add: games2)
        then show ?thesis using active by (simp add: next2 objects2)
      next
        case False
        then have old: "games ?s1 g' = Some a'" using h by (simp add: games2)
        then have "a' < next_object ?s1" and "is_active (objects ?s1 a')"
          using below act by blast+
        then show ?thesis by (simp add: next2 objects2)
      qed
    qed
    have p2: "\<forall>g' g'' a'. games s2 g' = Some a' \<longrightarrow> games s2 g'' = Some a' \<longrightarrow> g' = g''"
    proof (intro allI impI)
      fix g' g'' a'
      assume h1: "games s2 g' = Some a'" and h2: "games s2 g'' = Some a'"
      show "g' = g''"
      proof (cases "g' = g")
        case True
        then have a: "a' = next_object ?s1" using h1 by (simp add: games2)
        show ?thesis
        proof (cases "g'' = g")
          case True
          then show ?thesis using \<open>g' = g\<close> by simp
        next
          case False
          then have "games ?s1 g'' = Some a'" using h2 by (simp add: games2)
          then show ?thesis using fresh a by metis
        qed
      next
        case False
        then have o1: "games ?s1 g' = Some a'" using h1 by (simp add: games2)
        then have ne: "a' \<noteq> next_object ?s1" using fresh by metis
        have "g'' \<noteq> g"
        proof
          assume "g'' = g"
          then have "a' = next_object ?s1" using h2 by (simp add: games2)
          then show False using ne by simp
        qed
        then have "games ?s1 g'' = Some a'" using h2 by (simp add: games2)
        then show ?thesis using o1 inj by blast
      qed
    qed
    show ?thesis
      unfolding st game_inv_def using p1 p2 by blast
  qed
qed

lemma game_inv_step:
  assumes "game_inv s" and "builds_active c"
  shows "game_inv (game_step s c)"
proof (cases c)
  case (StartGame create g)
  then show ?thesis using assms by (simp add: game_inv_start_game)
next
  case (EndGame g)
  then show ?thesis using assms by (simp add: game_inv_end_game)
next
  case (UpdateGame g f)
  show ?thesis
  proof (cases "games s g")
    case None
    then show ?thesis using assms UpdateGame by simp
  next
    case (Some a)
    then show ?thesis
      using assms(1) UpdateGame unfolding game_inv_def by auto
  qed
qed

lemma game_inv_run:
  "game_inv s \<Longrightarrow> \<forall>c \<in> set calls. builds_active c \<Longrightarrow> game_inv (game_run s calls)"
proof (induction calls arbitrary: s)
  case Nil
  then show ?case by simp
next
  case (Cons c calls)
  then show ?case by (simp add: game_inv_step)
qed

lemma game_inv_active_iff_stored:
  "game_inv s \<Longrightarrow> has_active_game s g = (games s g \<noteq> None)"
  unfolding game_inv_def has_active_game_def by (auto split: option.splits)

text \<open>
  C4. In every state that the service reaches from its construction by calls of
  \<open>start_game\<close> (with a \<open>create_game\<close> that builds active states), \<open>end_game\<close> and
  writes to the games' own fields: \<open>end_game(g)\<close> returns true exactly when
  \<open>has_active_game(g)\<close> was true at the call, so it returns false whenever no game
  was active and true only when an active game was ended; the stored state is
  marked inactive and removed from the dictionary, after which
  \<open>has_active_game(g)\<close> is false.
\<close>

theorem end_game_ends_active_game:
  assumes "\<forall>c \<in> set calls. builds_active c"
  shows "(let s = game_run (GameService_init h) calls;
              (s', r) = end_game s g
          in r = has_active_game s g
             \<and> games s' g = None
             \<and> (\<forall>a. games s g = Some a \<longrightarrow> \<not> is_active (objects s' a))
             \<and> \<not> has_active_game s' g)"
proof -
  let ?s = "game_run (GameService_init h) calls"
  have inv: "game_inv ?s"
    using game_inv_run [OF game_inv_init assms] .
  have r: "snd (end_game ?s g) = has_active_game ?s g"
    by (simp add: end_game_result game_inv_active_iff_stored [OF inv])
  show ?thesis
    using r
    by (simp add: case_prod_beta Let_def end_game_removes end_game_marks
        end_game_not_active_after)
qed

theorem end_game_ends_active_game_witness:
  "(let calls = [StartGame (\<lambda>g. Inr \<lparr>group_id = g, is_active = True\<rparr>) 7,
                 UpdateGame 7 (\<lambda>x. x),
                 StartGame (\<lambda>g. Inl [110, 111]) 9];
        s = game_run (GameService_init (\<lambda>a. \<lparr>group_id = 0, is_active = False\<rparr>)) calls
    in (\<forall>c \<in> set calls. builds_active c)
       \<and> has_active_game s 7 \<and> snd (end_game s 7) = True
       \<and> games (fst (end_game s 7)) 7 = None
       \<and> \<not> is_active (objects (fst (end_game s 7)) 0)
       \<and> \<not> has_active_game s 8 \<and> snd (end_game s 8) = False)"
proof -
  let ?calls = "[StartGame (\<lambda>g. Inr \<lparr>group_id = g, is_active = True\<rparr>) 7,
                 UpdateGame 7 (\<lambda>x. x),
                 StartGame (\<lambda>g. Inl [110, 111]) 9]"
  let ?h = "\<lambda>a::nat. \<lparr>group_id = 0, is_active = False\<rparr>"
  have b: "\<forall>c \<in> set ?calls. builds_active c" by simp
  have g7: "games (game_run (GameService_init ?h) ?calls) 7 = Some 0"
    by (simp add: start_game_def GameService_init_def Let_def)
  have g8: "games (game_run (GameService_init ?h) ?calls) 8 = None"
    by (simp add: start_game_def GameService_init_def Let_def)
  have a7: "has_active_game (game_run (GameService_init ?h) ?calls) 7"
    by (simp add: start_game_def GameService_init_def has_active_game_def Let_def)
  show ?thesis
    using b g7 g8 a7
      end_game_ends_active_game [OF b, of ?h 7]
      end_game_ends_active_game [OF b, of ?h 8]
    by (simp add: case_prod_beta Let_def has_active_game_def)
qed


section \<open>Properties of the chat service\<close>

lemma cooldown_ensure_initialized [simp]:
  "cooldown (chat_ensure_initialized s) = cooldown s"
  by (simp add: chat_ensure_initialized_def chat_initialize_def)

lemma history_ensure_initialized [simp]:
  "history (chat_ensure_initialized s) = history s"
  by (simp add: chat_ensure_initialized_def chat_initialize_def)










lemma deque_append_bounded:
  "length (items d) \<le> maxlen d \<Longrightarrow> length (items (deque_append d x)) \<le> maxlen d"
  by (simp add: deque_append_def)

lemma deque_append_not_full:
  "length (items d) < maxlen d \<Longrightarrow> items (deque_append d x) = items d @ [x]"
  by (simp add: deque_append_def)

lemma deque_append_full:
  "length (items d) = maxlen d \<Longrightarrow> 0 < maxlen d
     \<Longrightarrow> items (deque_append d x) = tl (items d) @ [x]"
  by (cases "items d") (simp_all add: deque_append_def)

lemma slice_from_neg:
  "0 < n \<Longrightarrow> slice_from xs (- n) = drop (length xs - nat n) xs"
  by (simp add: slice_from_def nat_diff_distrib')

lemma get_messages_positive_limit:
  assumes "0 < limit" and "history s g = Some d"
  shows "snd (get_messages s g limit include_bot)
           = (let ms = (if include_bot then items d else filter (\<lambda>m. \<not> is_bot m) (items d))
              in drop (length ms - nat limit) ms)"
  using assms
  by (auto simp add: get_messages_def Let_def slice_from_neg)

lemma get_messages_positive_limit_length:
  assumes "0 < limit" and "history s g = Some d"
  shows "length (snd (get_messages s g limit include_bot)) \<le> min (nat limit) (length (items d))"
proof -
  have f: "length (filter (\<lambda>m. \<not> is_bot m) (items d)) \<le> length (items d)"
    by simp
  show ?thesis
  proof (cases include_bot)
    case True
    then show ?thesis
      by (simp add: get_messages_positive_limit [OF assms] Let_def)
  next
    case False
    then show ?thesis
      by (simp add: get_messages_positive_limit [OF assms] Let_def) (use f in arith)
  qed
qed

text \<open>
  C6. \<open>get_messages(g, limit=n)\<close> is to return at most \<open>min(n, stored)\<close> messages.
  Here two messages are recorded for group 5 under the default configuration, and
  \<open>get_messages(5, limit=0)\<close> returns both of them: the test \<open>len(messages) > 0\<close>
  holds and the slice \<open>messages[-0:]\<close> is the whole list.
\<close>

theorem get_messages_limit_zero_returns_all:
  "(let s = chat_run default_config ChatService_init
              [RecordMessage (flt 1 0) 5 10 [97] [104, 105] False,
               RecordMessage (flt 2 0) 5 11 [98] [104, 111] False]
    in map_option (length \<circ> items) (history s 5) = Some 2
       \<and> map user_id (snd (get_messages s 5 0 False)) = [10, 11]
       \<and> length (snd (get_messages s 5 0 False)) = 2)"
  by (simp add: record_message_def get_or_create_history_def deque_new_def
      deque_append_def default_config_def ChatService_init_def get_messages_def
      slice_from_def chat_ensure_initialized_def chat_initialize_def Let_def)


section \<open>Properties of the plugin dispatch\<close>

lemma register_command_matcher:
  "register nb p0 = (plugin, Command_handler) \<Longrightarrow> has_matcher plugin"
  by (auto simp add: register_def split: if_splits)

lemma check_permission_banned:
  "snd (is_banned loaded bs (sender_id event))
     \<Longrightarrow> check_permission loaded bs event = (fst (is_banned loaded bs (sender_id event)), False)"
  by (simp add: check_permission_def case_prod_beta)

lemma handler_banned:
  assumes "snd (is_banned loaded bs (sender_id event))"
  shows "handler plugin cfg handle loaded bs event args =
           (fst (is_banned loaded bs (sender_id event)),
            [Context_set, Check_permission (sender_id event)]
              @ fst (finish plugin banned_message) @ [Context_reset],
            snd (finish plugin banned_message))"
  by (simp add: handler_def check_permission_banned [OF assms] case_prod_beta)

text \<open>
  C7. For a plugin whose command wrapper \<open>_register\<close> has installed, and an event
  whose sender is in the ban list: the wrapper asks the ban list, hands the fixed
  "banned" message to the matcher and ends there with the framework's
  \<open>FinishedException\<close>, the context variable reset. The trace has no feature check
  and no call of \<open>handle\<close>, whatever the configuration and whatever \<open>handle\<close> is.
\<close>

theorem banned_sender_rejected_first:
  assumes "register nb p0 = (plugin, Command_handler)"
    and "snd (is_banned loaded bs (sender_id event))"
  shows "(let (bs1, trace, out) = handler plugin cfg handle loaded bs event args
          in trace = [Context_set, Check_permission (sender_id event),
                      Matcher_finish banned_message, Context_reset]
             \<and> out = Some FinishedException
             \<and> Check_feature \<notin> set trace
             \<and> (\<forall>content. Handle content \<notin> set trace))"
proof -
  have m: "has_matcher plugin"
    using assms(1) by (rule register_command_matcher)
  have f: "finish plugin banned_message = ([Matcher_finish banned_message], Some FinishedException)"
    using m by (simp add: finish_def)
  show ?thesis
    by (simp add: handler_banned [OF assms(2)] f)
qed

theorem banned_sender_rejected_first_witness:
  "(let p0 = \<lparr>command = Some [100], feature_name = Some (map of_char ''math''),
               use_on_message = False, has_matcher = False\<rparr>;
        bs = \<lparr>banned_users = {5}, ban_initialized = True\<rparr>;
        event = \<lparr>sender_id = 5\<rparr>
    in register True p0 = (p0\<lparr>has_matcher := True\<rparr>, Command_handler)
       \<and> snd (is_banned [] bs (sender_id event))
       \<and> snd (handler (p0\<lparr>has_matcher := True\<rparr>) default_config
                 (\<lambda>e c. ([Matcher_send c], None)) [] bs event [104, 105])
           = ([Context_set, Check_permission 5, Matcher_finish banned_message, Context_reset],
              Some FinishedException))"
proof -
  let ?p0 = "\<lparr>command = Some [100], feature_name = Some (map of_char ''math''),
               use_on_message = False, has_matcher = False\<rparr>"
  let ?bs = "\<lparr>banned_users = {5}, ban_initialized = True\<rparr>"
  let ?ev = "\<lparr>sender_id = 5\<rparr>"
  have r: "register True ?p0 = (?p0\<lparr>has_matcher := True\<rparr>, Command_handler)"
    by (simp add: register_def)
  have b: "snd (is_banned [] ?bs (sender_id ?ev))"
    by (simp add: is_banned_def ban_ensure_initialized_def)
  show ?thesis
    using r b
      banned_sender_rejected_first [OF r b, of default_config
        "\<lambda>e c. ([Matcher_send c], None)" "[104, 105]"]
    by (simp add: case_prod_beta Let_def prod_eq_iff)
qed

end
